theory Spec2Isabelle
  imports
    Complex_Main
    "HOL-Library.Sublist"
    "HOL-Library.Char_ord"
    "HOL-Library.List_Lexorder"
begin

section \<open>The problem analyzer of \<^verbatim>\<open>analyze_polymarket_problems.py\<close>\<close>

text \<open>
  The development embeds the class \<^verbatim>\<open>PolymarketProblemAnalyzer\<close>: the keyword gate
  (\<^verbatim>\<open>contains_problem\<close>), the sentiment stage (\<^verbatim>\<open>get_vader_sentiment\<close>,
  \<^verbatim>\<open>classify_sentiment\<close>), the categorizer (\<^verbatim>\<open>find_categories\<close>,
  \<^verbatim>\<open>categorize_problems\<close>) and the ranking (\<^verbatim>\<open>extract_top_problems\<close>).

  Modelling decisions, each forced by the embedding:
  \<^item> A data frame is the list of its rows, in row order. A missing cell (NaN) of the
    text column or of the platform column is \<open>None\<close>.
  \<^item> Texts are strings of bytes and \<^verbatim>\<open>str.lower\<close> is modelled on the ASCII letters.
  \<^item> Python floats are modelled by rationals. Every float is a rational, the float
    literal \<^verbatim>\<open>0.05\<close> is the float nearest to \<open>1/20\<close>, and no float lies strictly
    between the two, so the threshold comparisons agree with the ones on floats.
    Mean and percentage are computed exactly, without rounding.
  \<^item> \<^verbatim>\<open>collections.Counter\<close> is an association list in insertion order, which is
    the order its \<^verbatim>\<open>items()\<close> are iterated in; \<^verbatim>\<open>most_common(n)\<close> is
    \<^verbatim>\<open>heapq.nlargest(n, items, key=count)\<close>, which equals the first \<open>n\<close> elements
    of the stable sort by descending count.
  \<^item> Printing is dropped, except where the printed expression can raise.
\<close>

subsection \<open>Strings\<close>

definition lower_char :: "char \<Rightarrow> char" where
  "lower_char c =
     (let n = (of_char c :: nat) in if 65 \<le> n \<and> n \<le> 90 then char_of (n + 32) else c)"

definition lower :: "string \<Rightarrow> string" where
  "lower s = map lower_char s"

text \<open>Python's \<^verbatim>\<open>keyword in text\<close> on strings: a scan for the first position where
  \<open>keyword\<close> starts.\<close>

fun str_in :: "string \<Rightarrow> string \<Rightarrow> bool" where
  "str_in keyword [] = (keyword = [])"
| "str_in keyword (c # cs) = (prefix keyword (c # cs) \<or> str_in keyword cs)"

subsection \<open>Errors and configuration\<close>

datatype error = ZeroDivisionError | ScorerError

text \<open>The two attributes of \<^verbatim>\<open>self\<close> the core reads. A Python dict is an association
  list in insertion order.\<close>

record analyzer =
  problem_keywords :: "string list"
  problem_categories :: "(string \<times> string list) list"

definition init :: analyzer where
  "init = \<lparr>
     problem_keywords =
       [''problem'', ''issue'', ''error'', ''bug'', ''broken'', ''not working'', ''failed'',
        ''failure'', ''cant'', ''cannot'', ''won't'', ''doesn't work'', ''stuck'', ''help'',
        ''fix'', ''trouble'', ''difficult'', ''hard'', ''complicated'', ''confusing'',
        ''frustrated'', ''annoying'', ''slow'', ''laggy'', ''crash'', ''frozen'', ''glitch'',
        ''wrong'', ''incorrect'', ''missing'', ''lost'', ''scam'', ''fraud'', ''withdraw'',
        ''withdrawal'', ''locked'', ''banned'', ''suspended''],
     problem_categories =
       [(''withdrawal'', [''withdraw'', ''withdrawal'', ''cash out'', ''payout'',
                          ''transfer out'', ''cant withdraw'']),
        (''deposit'', [''deposit'', ''fund'', ''add money'', ''cant deposit'',
                       ''payment failed'']),
        (''ui_ux'', [''confusing'', ''hard to use'', ''interface'', ''ui'', ''ux'', ''design'',
                     ''navigation'', ''find'']),
        (''fees'', [''fee'', ''fees'', ''expensive'', ''cost'', ''charge'', ''high fee'']),
        (''liquidity'', [''liquidity'', ''spread'', ''slippage'', ''no orders'', ''volume'',
                         ''cant sell'', ''cant buy'']),
        (''speed'', [''slow'', ''laggy'', ''loading'', ''pending'', ''delay'', ''wait'',
                     ''taking forever'']),
        (''kyc_verification'', [''kyc'', ''verify'', ''verification'', ''identity'', ''id'',
                                ''rejected'']),
        (''market_resolution'', [''resolution'', ''resolve'', ''outcome'', ''result'',
                                 ''payout'', ''settled'']),
        (''polygon_network'', [''polygon'', ''matic'', ''network'', ''gas'',
                               ''transaction failed'', ''metamask'']),
        (''customer_support'', [''support'', ''customer service'', ''no response'', ''help'',
                                ''contact'', ''ticket''])]\<rparr>"

subsection \<open>Rows of the data frame\<close>

datatype label = positive | negative | neutral

text \<open>The dict returned by the scorer.\<close>

record polarity =
  neg :: rat
  neu :: rat
  pos :: rat
  compound :: rat

text \<open>The columns the core reads, as they are added stage by stage. The column
  \<^verbatim>\<open>problem_categories\<close> of the frame is the field \<open>post_categories\<close>, since the
  taxonomy attribute of the analyzer already has that name.\<close>

record post =
  full_text :: "string option"
  platform :: "string option"

record scored = post +
  sentiment_neg :: rat
  sentiment_neu :: rat
  sentiment_pos :: rat
  sentiment_compound :: rat
  sentiment :: label

record categorized = scored +
  post_categories :: "string list"

subsection \<open>Problem detection\<close>

definition contains_problem :: "analyzer \<Rightarrow> string option \<Rightarrow> bool" where
  "contains_problem self text =
     (case text of
        None \<Rightarrow> False
      | Some t \<Rightarrow>
          (let text_lower = lower t
           in list_ex (\<lambda>keyword. str_in keyword text_lower) (problem_keywords self)))"

text \<open>\<^verbatim>\<open>self.df\<close> is \<open>None\<close> when no data was loaded. The summary line printed after the
  filter divides by the number of rows of the frame.\<close>

definition identify_problem_posts :: "analyzer \<Rightarrow> post list option \<Rightarrow> error + post list" where
  "identify_problem_posts self df =
     (case df of
        None \<Rightarrow> Inr []
      | Some rows \<Rightarrow>
          (let problem_df = filter (\<lambda>r. contains_problem self (full_text r)) rows
           in if length rows = 0 then Inl ZeroDivisionError else Inr problem_df))"

subsection \<open>Sentiment\<close>

type_synonym scorer = "string \<Rightarrow> error + polarity"

text \<open>The scorer is the external collaborator \<^verbatim>\<open>self.vader.polarity_scores\<close>; it may
  raise. The first component of the result lists the texts the scorer was invoked on by
  the call.\<close>

definition get_vader_sentiment :: "scorer \<Rightarrow> string option \<Rightarrow> string list \<times> (error + polarity)" where
  "get_vader_sentiment vader text =
     (case text of
        None \<Rightarrow> ([], Inr \<lparr>neg = 0, neu = 0, pos = 0, compound = 0\<rparr>)
      | Some t \<Rightarrow> ([t], vader t))"

text \<open>A scorer that raises on every text.\<close>

definition raising_scorer :: scorer where
  "raising_scorer t = Inl ScorerError"

definition classify_sentiment :: "rat \<Rightarrow> label" where
  "classify_sentiment c =
     (if c \<ge> 1 / 20 then positive
      else if c \<le> - (1 / 20) then negative
      else neutral)"

fun analyze_sentiment :: "scorer \<Rightarrow> post list \<Rightarrow> error + scored list" where
  "analyze_sentiment vader [] = Inr []"
| "analyze_sentiment vader (r # rs) =
     (case snd (get_vader_sentiment vader (full_text r)) of
        Inl e \<Rightarrow> Inl e
      | Inr x \<Rightarrow>
          (case analyze_sentiment vader rs of
             Inl e \<Rightarrow> Inl e
           | Inr rs' \<Rightarrow>
               Inr (\<lparr>full_text = full_text r, platform = platform r,
                     sentiment_neg = neg x, sentiment_neu = neu x, sentiment_pos = pos x,
                     sentiment_compound = compound x,
                     sentiment = classify_sentiment (compound x)\<rparr> # rs')))"

subsection \<open>Counters\<close>

text \<open>\<^verbatim>\<open>Counter(xs)\<close>: every element increments its entry; a new key is appended.\<close>

fun incr :: "'a \<Rightarrow> ('a \<times> nat) list \<Rightarrow> ('a \<times> nat) list" where
  "incr x [] = [(x, 1)]"
| "incr x ((k, n) # kvs) = (if k = x then (k, n + 1) # kvs else (k, n) # incr x kvs)"

definition Counter :: "'a list \<Rightarrow> ('a \<times> nat) list" where
  "Counter xs = fold incr xs []"

definition most_common :: "('a \<times> nat) list \<Rightarrow> int \<Rightarrow> ('a \<times> nat) list" where
  "most_common counts n = take (nat n) (sort_key (\<lambda>kc. - int (snd kc)) counts)"

subsection \<open>Categorization\<close>

definition find_categories :: "analyzer \<Rightarrow> string option \<Rightarrow> string list" where
  "find_categories self text =
     (case text of
        None \<Rightarrow> []
      | Some t \<Rightarrow>
          (let text_lower = lower t
           in map fst
                (filter (\<lambda>(category, keywords). list_ex (\<lambda>keyword. str_in keyword text_lower) keywords)
                   (problem_categories self))))"

definition categorize_problems ::
  "analyzer \<Rightarrow> scored list \<Rightarrow> categorized list \<times> (string \<times> nat) list" where
  "categorize_problems self df =
     (let df' = map (\<lambda>r. \<lparr>full_text = full_text r, platform = platform r,
                           sentiment_neg = sentiment_neg r, sentiment_neu = sentiment_neu r,
                           sentiment_pos = sentiment_pos r,
                           sentiment_compound = sentiment_compound r,
                           sentiment = sentiment r,
                           post_categories = find_categories self (full_text r)\<rparr>) df;
          all_categories = concat (map post_categories df')
      in (df', Counter all_categories))"

subsection \<open>Ranking\<close>

record ranked_problem =
  rank :: nat
  category :: string
  count :: nat
  percentage :: rat
  avg_sentiment :: "rat option"
  sample_complaints :: "string option list"
  platforms :: "(string \<times> nat) list"

text \<open>\<^verbatim>\<open>Series.mean\<close>: NaN (\<open>None\<close>) on an empty series.\<close>

definition mean :: "rat list \<Rightarrow> rat option" where
  "mean xs = (if xs = [] then None else Some (sum_list xs / of_nat (length xs)))"

text \<open>\<^verbatim>\<open>DataFrame.nsmallest(n, column)\<close> with the default \<^verbatim>\<open>keep='first'\<close>: the first
  \<open>n\<close> rows in ascending order of the column, earlier rows first among equal values.\<close>

definition nsmallest :: "nat \<Rightarrow> ('r \<Rightarrow> rat) \<Rightarrow> 'r list \<Rightarrow> 'r list" where
  "nsmallest n column rows = take n (sort_key column rows)"

text \<open>\<^verbatim>\<open>Series.value_counts().to_dict()\<close>: the counts of the values, largest first.
  With the default \<^verbatim>\<open>dropna=True\<close> the missing values are left out.\<close>

definition value_counts :: "'a option list \<Rightarrow> ('a \<times> nat) list" where
  "value_counts xs =
     sort_key (\<lambda>kc. - int (snd kc))
       (Counter (concat (map (\<lambda>v. case v of None \<Rightarrow> [] | Some x \<Rightarrow> [x]) xs)))"

text \<open>The body of the loop of \<^verbatim>\<open>extract_top_problems\<close>, for the category at position
  \<open>i\<close>. The division by \<^verbatim>\<open>len(problem_df)\<close> raises on an empty frame.\<close>

definition problem_entry ::
  "categorized list \<Rightarrow> nat \<Rightarrow> string \<Rightarrow> nat \<Rightarrow> error + ranked_problem" where
  "problem_entry problem_df i cat cnt =
     (let category_posts = filter (\<lambda>r. cat \<in> set (post_categories r)) problem_df;
          avg = mean (map sentiment_compound category_posts);
          negative_posts =
            nsmallest 3 sentiment_compound (filter (\<lambda>r. sentiment r = negative) category_posts);
          samples = map full_text negative_posts
      in if length problem_df = 0 then Inl ZeroDivisionError
         else Inr \<lparr>rank = i, category = cat, count = cnt,
                   percentage = (of_nat cnt / of_nat (length problem_df)) * 100,
                   avg_sentiment = avg,
                   sample_complaints = samples,
                   platforms = value_counts (map platform category_posts)\<rparr>)"

text \<open>The loop over \<^verbatim>\<open>enumerate(category_counts.most_common(top_n), 1)\<close>.\<close>

fun top_problems_loop ::
  "categorized list \<Rightarrow> nat \<Rightarrow> (string \<times> nat) list \<Rightarrow> error + ranked_problem list" where
  "top_problems_loop problem_df i [] = Inr []"
| "top_problems_loop problem_df i ((cat, cnt) # rest) =
     (case problem_entry problem_df i cat cnt of
        Inl e \<Rightarrow> Inl e
      | Inr problem \<Rightarrow>
          (case top_problems_loop problem_df (i + 1) rest of
             Inl e \<Rightarrow> Inl e
           | Inr top_problems \<Rightarrow> Inr (problem # top_problems)))"

definition extract_top_problems ::
  "categorized list \<Rightarrow> (string \<times> nat) list \<Rightarrow> int \<Rightarrow> error + ranked_problem list" where
  "extract_top_problems problem_df category_counts top_n =
     top_problems_loop problem_df 1 (most_common category_counts top_n)"

text \<open>The two calls of \<^verbatim>\<open>run_full_analysis\<close> that turn the scored problem posts into the
  ranked list, with \<open>top_n\<close> left free.\<close>

definition rank_problems :: "analyzer \<Rightarrow> scored list \<Rightarrow> int \<Rightarrow> error + ranked_problem list" where
  "rank_problems self df top_n =
     (case categorize_problems self df of
        (problem_df, category_counts) \<Rightarrow> extract_top_problems problem_df category_counts top_n)"

text \<open>\<^verbatim>\<open>run_full_analysis\<close> up to the ranked list; the frame is \<open>None\<close> when no data
  file is found, and the result is \<open>None\<close> where the source returns early.\<close>

definition run_full_analysis ::
  "analyzer \<Rightarrow> scorer \<Rightarrow> post list option \<Rightarrow> error + ranked_problem list option" where
  "run_full_analysis self vader df =
     (case df of
        None \<Rightarrow> Inr None
      | Some rows \<Rightarrow>
          (case identify_problem_posts self (Some rows) of
             Inl e \<Rightarrow> Inl e
           | Inr problem_df \<Rightarrow>
               if length problem_df = 0 then Inr None
               else (case analyze_sentiment vader problem_df of
                       Inl e \<Rightarrow> Inl e
                     | Inr scored_df \<Rightarrow>
                         (case rank_problems self scored_df 5 of
                            Inl e \<Rightarrow> Inl e
                          | Inr top_problems \<Rightarrow> Inr (Some top_problems)))))"

subsection \<open>Example inputs\<close>

text \<open>A scorer that returns the compound score \<open>c\<close> for every text.\<close>

definition constant_scorer :: "rat \<Rightarrow> scorer" where
  "constant_scorer c t = Inr \<lparr>neg = 0, neu = 1, pos = 0, compound = c\<rparr>"

text \<open>A row as \<^verbatim>\<open>analyze_sentiment\<close> leaves it when the scorer returns the compound
  score \<open>c\<close>, and the same row with the column of categories.\<close>

definition scored_post :: "string \<Rightarrow> string \<Rightarrow> rat \<Rightarrow> scored" where
  "scored_post t p c =
     \<lparr>full_text = Some t, platform = Some p,
      sentiment_neg = 0, sentiment_neu = 1, sentiment_pos = 0,
      sentiment_compound = c, sentiment = classify_sentiment c\<rparr>"

definition categorized_post :: "string \<Rightarrow> string \<Rightarrow> rat \<Rightarrow> string list \<Rightarrow> categorized" where
  "categorized_post t p c cats =
     \<lparr>full_text = Some t, platform = Some p,
      sentiment_neg = 0, sentiment_neu = 1, sentiment_pos = 0,
      sentiment_compound = c, sentiment = classify_sentiment c,
      post_categories = cats\<rparr>"

definition example_df :: "scored list" where
  "example_df =
     [scored_post ''fee problem'' ''twitter'' (- (1 / 2)),
      scored_post ''deposit problem'' ''reddit'' (- (1 / 4)),
      scored_post ''cant withdraw, high fee'' ''reddit'' (- (3 / 4))]"

text \<open>Four collected posts, two of them problem posts.\<close>

definition example_posts :: "post list" where
  "example_posts =
     [\<lparr>full_text = Some ''fee problem'', platform = Some ''twitter''\<rparr>,
      \<lparr>full_text = Some ''all good'', platform = Some ''reddit''\<rparr>,
      \<lparr>full_text = Some ''deposit problem'', platform = Some ''reddit''\<rparr>,
      \<lparr>full_text = None, platform = Some ''reddit''\<rparr>]"

text \<open>Five negative posts of one category.\<close>

definition example_negative_df :: "categorized list" where
  "example_negative_df =
     [categorized_post ''a'' ''reddit'' (- (9 / 10)) [''fees''],
      categorized_post ''b'' ''reddit'' (- (1 / 10)) [''fees''],
      categorized_post ''c'' ''reddit'' (- (1 / 2)) [''fees''],
      categorized_post ''d'' ''reddit'' (- (3 / 10)) [''fees''],
      categorized_post ''e'' ''reddit'' (- (1 / 20)) [''fees'']]"

text \<open>Two problem posts about fees, the second without a platform.\<close>

definition example_missing_platform_df :: "scored list" where
  "example_missing_platform_df =
     [scored_post ''fee problem'' ''twitter'' (- (1 / 2)),
      (scored_post ''high fee, help'' ''reddit'' (- (1 / 4)))\<lparr>platform := None\<rparr>]"

section \<open>Properties\<close>

subsection \<open>Evaluation of strings\<close>

lemma str_in_sublist: "str_in k s \<longleftrightarrow> sublist k s"
  by (induction s) (simp_all add: sublist_Cons_right)

lemma lower_char_Char:
  "lower_char (Char b0 b1 b2 b3 b4 b5 b6 b7) =
     (if \<not> b7 \<and> b6 \<and> \<not> b5 \<and> (b0 \<or> b1 \<or> b2 \<or> b3 \<or> b4) \<and> \<not> (b4 \<and> b3 \<and> (b2 \<or> (b1 \<and> b0)))
      then Char b0 b1 b2 b3 b4 True b6 b7 else Char b0 b1 b2 b3 b4 b5 b6 b7)"
  by (cases b0; cases b1; cases b2; cases b3; cases b4; cases b5; cases b6; cases b7;
      simp add: lower_char_def char_of_def bit_0)

lemma lower_Nil: "lower [] = []"
  by (simp add: lower_def)

lemma lower_Cons: "lower (c # cs) = lower_char c # lower cs"
  by (simp add: lower_def)

lemmas eval_lower = lower_Nil lower_Cons lower_char_Char

subsection \<open>Problem detection\<close>

text \<open>
  C7. \<^verbatim>\<open>contains_problem\<close> is true exactly when some configured problem keyword is a
  substring of the lowercased text. It is false for a missing text, and false for the
  empty text under the keyword list of the analyzer. The function has no failing branch.
\<close>

theorem contains_problem_iff:
  "(contains_problem self (Some t) \<longleftrightarrow> (\<exists>k \<in> set (problem_keywords self). sublist k (lower t)))
   \<and> \<not> contains_problem self None
   \<and> \<not> contains_problem init (Some [])"
  by (simp add: contains_problem_def list_ex_iff str_in_sublist init_def lower_def)

theorem contains_problem_iff_witness:
  "contains_problem init (Some ''Site is BROKEN again'')
   \<and> (\<exists>k \<in> set (problem_keywords init). sublist k (lower ''Site is BROKEN again''))
   \<and> \<not> contains_problem init (Some ''all good here'')
   \<and> \<not> (\<exists>k \<in> set (problem_keywords init). sublist k (lower ''all good here''))"
proof -
  have a: "contains_problem init (Some ''Site is BROKEN again'')"
    by (simp add: contains_problem_def init_def eval_lower)
  have b: "\<not> contains_problem init (Some ''all good here'')"
    by (simp add: contains_problem_def init_def eval_lower)
  from a b contains_problem_iff [of init "''Site is BROKEN again''"]
    contains_problem_iff [of init "''all good here''"]
  show ?thesis by blast
qed

subsection \<open>Sentiment\<close>

text \<open>
  C4. The label is negative exactly for compound scores up to \<open>-0.05\<close>, positive exactly
  from \<open>0.05\<close> on, and neutral strictly in between; \<open>-0.05\<close> is negative, \<open>0.05\<close> is
  positive, \<open>0.0\<close> and \<open>0.049\<close> are neutral.
\<close>

theorem classify_sentiment_thresholds:
  "(classify_sentiment c = negative \<longleftrightarrow> c \<le> - (1 / 20))
   \<and> (classify_sentiment c = positive \<longleftrightarrow> c \<ge> 1 / 20)
   \<and> (classify_sentiment c = neutral \<longleftrightarrow> - (1 / 20) < c \<and> c < 1 / 20)
   \<and> classify_sentiment (- (5 / 100)) = negative
   \<and> classify_sentiment (5 / 100) = positive
   \<and> classify_sentiment 0 = neutral
   \<and> classify_sentiment (49 / 1000) = neutral"
  by (simp add: classify_sentiment_def)

text \<open>
  C3, as stated, fails on the empty text: the guard of \<^verbatim>\<open>get_vader_sentiment\<close> is
  \<^verbatim>\<open>pd.isna\<close>, which the empty string does not satisfy, so the scorer is invoked on it
  and a failure of the scorer is the outcome.
\<close>

theorem get_vader_sentiment_empty_counterexample:
  "get_vader_sentiment raising_scorer (Some []) = ([[]], Inl ScorerError)"
  by (simp add: get_vader_sentiment_def raising_scorer_def)

text \<open>
  C3, amended. For a missing text the sentiment stage substitutes the neutral default
  (all four scores 0) without invoking the scorer, whatever the scorer is, and no error
  results. For every present text, the empty one included, the scorer is invoked on
  exactly that text and its outcome is the outcome of the stage. A row with a missing text
  leaves \<^verbatim>\<open>analyze_sentiment\<close> with the compound score 0 and the label neutral.
\<close>

theorem get_vader_sentiment_missing:
  "get_vader_sentiment vader None = ([], Inr \<lparr>neg = 0, neu = 0, pos = 0, compound = 0\<rparr>)
   \<and> get_vader_sentiment vader (Some t) = ([t], vader t)
   \<and> analyze_sentiment vader [\<lparr>full_text = None, platform = p\<rparr>] =
       Inr [\<lparr>full_text = None, platform = p,
             sentiment_neg = 0, sentiment_neu = 0, sentiment_pos = 0,
             sentiment_compound = 0, sentiment = neutral\<rparr>]"
  by (simp add: get_vader_sentiment_def classify_sentiment_def)

subsection \<open>Empty inputs\<close>

text \<open>
  C2. On a frame with no rows the summary printed by \<^verbatim>\<open>identify_problem_posts\<close>
  divides by the number of rows: the call raises \<^verbatim>\<open>ZeroDivisionError\<close>, and so does the
  pipeline.
\<close>

theorem identify_problem_posts_empty_frame:
  "identify_problem_posts self (Some []) = Inl ZeroDivisionError
   \<and> run_full_analysis self vader (Some []) = Inl ZeroDivisionError"
  by (simp add: identify_problem_posts_def run_full_analysis_def)

text \<open>The other cases of the claim hold: without a frame the filter returns no rows, a
  non-empty frame without problem posts ends the pipeline early, and ranking no posts
  gives the empty list.\<close>

lemma identify_problem_posts_no_frame: "identify_problem_posts self None = Inr []"
  by (simp add: identify_problem_posts_def)

lemma run_full_analysis_no_problem_posts:
  assumes "rows \<noteq> []" and "\<forall>r \<in> set rows. \<not> contains_problem self (full_text r)"
  shows "run_full_analysis self vader (Some rows) = Inr None"
proof -
  have "filter (\<lambda>r. contains_problem self (full_text r)) rows = []"
    using assms(2) by (simp add: filter_empty_conv)
  then show ?thesis
    using assms(1) by (simp add: run_full_analysis_def identify_problem_posts_def)
qed

lemma rank_problems_empty: "rank_problems self [] top_n = Inr []"
  by (simp add: rank_problems_def categorize_problems_def extract_top_problems_def
      most_common_def Counter_def)

subsection \<open>Counters and stable sorting\<close>

lemma Counter_snoc: "Counter (xs @ [x]) = incr x (Counter xs)"
  by (simp add: Counter_def)

lemma map_fst_incr:
  "map fst (incr x kvs) = (if x \<in> fst ` set kvs then map fst kvs else map fst kvs @ [x])"
  by (induction x kvs rule: incr.induct) auto

lemma keys_Counter: "map fst (Counter xs) = rev (remdups (rev xs))"
proof (induction xs rule: rev_induct)
  case Nil
  show ?case by (simp add: Counter_def)
next
  case (snoc x xs)
  have "set (map fst (Counter xs)) = set xs"
    unfolding snoc by simp
  then have "fst ` set (Counter xs) = set xs"
    by simp
  then show ?case
    using snoc by (simp add: Counter_snoc map_fst_incr)
qed

lemma set_keys_Counter: "fst ` set (Counter xs) = set xs"
proof -
  have "set (map fst (Counter xs)) = set xs"
    unfolding keys_Counter by simp
  then show ?thesis by simp
qed

lemma distinct_keys_Counter: "distinct (map fst (Counter xs))"
  by (simp add: keys_Counter)

lemma map_of_incr:
  "map_of (incr x kvs) k =
     (if k = x then Some (case map_of kvs x of None \<Rightarrow> 1 | Some n \<Rightarrow> n + 1) else map_of kvs k)"
  by (induction x kvs rule: incr.induct) auto

lemma map_of_Counter:
  "map_of (Counter xs) k = (if k \<in> set xs then Some (count_list xs k) else None)"
proof (induction xs rule: rev_induct)
  case Nil
  show ?case by (simp add: Counter_def)
next
  case (snoc x xs)
  then show ?case
    by (auto simp: Counter_snoc map_of_incr)
qed

lemma Counter_mem: "(k, n) \<in> set (Counter xs) \<longleftrightarrow> k \<in> set xs \<and> n = count_list xs k"
proof -
  have "(k, n) \<in> set (Counter xs) \<longleftrightarrow> map_of (Counter xs) k = Some n"
    by (simp add: distinct_keys_Counter)
  then show ?thesis
    by (auto simp: map_of_Counter)
qed

lemma Counter_positive: "(k, n) \<in> set (Counter xs) \<Longrightarrow> 1 \<le> n"
  using count_list_0_iff [of xs k] by (auto simp: Counter_mem)

lemma sum_list_incr: "sum_list (map snd (incr x kvs)) = Suc (sum_list (map snd kvs))"
  by (induction x kvs rule: incr.induct) auto

lemma sum_list_Counter: "sum_list (map snd (Counter xs)) = length xs"
  by (induction xs rule: rev_induct) (simp_all add: Counter_snoc sum_list_incr Counter_def)

lemma sum_list_insort_key:
  "sum_list (map g (insort_key f x xs)) = g x + sum_list (map g xs)" for g :: "'a \<Rightarrow> nat"
  by (induction xs) auto

lemma sum_list_sort_key: "sum_list (map g (sort_key f xs)) = sum_list (map g xs)" for g :: "'a \<Rightarrow> nat"
  by (induction xs) (simp_all add: sum_list_insort_key)

lemma length_present:
  "length (concat (map (\<lambda>v. case v of None \<Rightarrow> [] | Some x \<Rightarrow> [x]) xs))
     = length (filter (\<lambda>v. v \<noteq> None) xs)"
  by (induction xs) (auto split: option.splits)

lemma sum_value_counts:
  "sum_list (map snd (value_counts xs)) = length (filter (\<lambda>v. v \<noteq> None) xs)"
  by (simp add: value_counts_def sum_list_sort_key sum_list_Counter length_present)

lemma sorted_wrt_insort_key:
  fixes f :: "'a \<Rightarrow> 'b::linorder"
  assumes "sorted (map f ys)" and "sorted_wrt R ys"
    and "\<And>y. y \<in> set ys \<Longrightarrow> f x \<le> f y \<Longrightarrow> R x y"
    and "\<And>y. y \<in> set ys \<Longrightarrow> f y < f x \<Longrightarrow> R y x"
  shows "sorted_wrt R (insort_key f x ys)"
  using assms
proof (induction ys)
  case Nil
  show ?case by simp
next
  case (Cons y ys)
  show ?case
  proof (cases "f x \<le> f y")
    case True
    have "R x z" if "z \<in> set (y # ys)" for z
    proof -
      have "f y \<le> f z" using that Cons.prems(1) by auto
      with True have "f x \<le> f z" by simp
      with that show ?thesis using Cons.prems(3) by blast
    qed
    with True Cons.prems(2) show ?thesis by simp
  next
    case False
    have tail: "sorted_wrt R (insort_key f x ys)"
      using Cons by (intro Cons.IH) auto
    have "R y z" if "z \<in> set (insort_key f x ys)" for z
      using that False Cons.prems(2,4) by (auto simp: set_insort_key)
    with False tail show ?thesis by simp
  qed
qed

lemma sort_key_stable_order:
  fixes f :: "'a \<Rightarrow> 'b::linorder"
  shows "sorted_wrt (\<lambda>a b. f a \<le> f b \<and> (f a = f b \<longrightarrow> (\<exists>us vs. K = us @ a # vs \<and> b \<in> set vs)))
           (sort_key f K)"
proof (induction K)
  case Nil
  show ?case by simp
next
  case (Cons x K)
  have lift: "sorted_wrt (\<lambda>a b. f a \<le> f b \<and> (f a = f b \<longrightarrow> (\<exists>us vs. x # K = us @ a # vs \<and> b \<in> set vs)))
           (sort_key f K)"
  proof (rule sorted_wrt_mono_rel [OF _ Cons.IH])
    fix a b
    assume ab: "f a \<le> f b \<and> (f a = f b \<longrightarrow> (\<exists>us vs. K = us @ a # vs \<and> b \<in> set vs))"
    have "\<exists>us vs. x # K = us @ a # vs \<and> b \<in> set vs" if "f a = f b"
    proof -
      from ab that obtain us vs where "K = us @ a # vs" "b \<in> set vs" by blast
      then have "x # K = (x # us) @ a # vs \<and> b \<in> set vs" by simp
      then show ?thesis by blast
    qed
    with ab show "f a \<le> f b \<and> (f a = f b \<longrightarrow> (\<exists>us vs. x # K = us @ a # vs \<and> b \<in> set vs))"
      by blast
  qed
  show ?case
    unfolding sort_key_simps
  proof (rule sorted_wrt_insort_key [OF _ lift])
    show "sorted (map f (sort_key f K))" by (rule sorted_sort_key)
  next
    fix y assume "y \<in> set (sort_key f K)" "f x \<le> f y"
    then have "x # K = [] @ x # K \<and> y \<in> set K" by simp
    then have "\<exists>us vs. x # K = us @ x # vs \<and> y \<in> set vs" by blast
    with \<open>f x \<le> f y\<close>
    show "f x \<le> f y \<and> (f x = f y \<longrightarrow> (\<exists>us vs. x # K = us @ x # vs \<and> y \<in> set vs))"
      by blast
  next
    fix y assume "y \<in> set (sort_key f K)" "f y < f x"
    then show "f y \<le> f x \<and> (f y = f x \<longrightarrow> (\<exists>us vs. x # K = us @ y # vs \<and> x \<in> set vs))"
      by auto
  qed
qed

lemma first_occurrence_order:
  assumes "rev (remdups (rev xs)) = us @ a # vs" and "b \<in> set vs"
  shows "\<exists>pre post. xs = pre @ a # post \<and> a \<notin> set pre \<and> b \<notin> set pre"
  using assms
proof (induction xs arbitrary: vs rule: rev_induct)
  case Nil
  then show ?case by simp
next
  case (snoc x xs)
  show ?case
  proof (cases "x \<in> set xs")
    case True
    with snoc.prems have "rev (remdups (rev xs)) = us @ a # vs" by simp
    from snoc.IH [OF this snoc.prems(2)] obtain pre post
      where "xs = pre @ a # post" "a \<notin> set pre" "b \<notin> set pre" by blast
    then have "xs @ [x] = pre @ a # (post @ [x]) \<and> a \<notin> set pre \<and> b \<notin> set pre" by simp
    then show ?thesis by blast
  next
    case False
    with snoc.prems have eq: "rev (remdups (rev xs)) @ [x] = us @ a # vs" by simp
    from snoc.prems(2) obtain vs' where vs: "vs = vs' @ [x]" and K: "rev (remdups (rev xs)) = us @ a # vs'"
      using eq by (cases vs rule: rev_cases) auto
    show ?thesis
    proof (cases "b \<in> set vs'")
      case True
      from snoc.IH [OF K True] obtain pre post
        where "xs = pre @ a # post" "a \<notin> set pre" "b \<notin> set pre" by blast
      then have "xs @ [x] = pre @ a # (post @ [x]) \<and> a \<notin> set pre \<and> b \<notin> set pre" by simp
      then show ?thesis by blast
    next
      case b: False
      with snoc.prems(2) vs have bx: "b = x" by simp
      have "a \<in> set (rev (remdups (rev xs)))"
        unfolding K by simp
      then have "a \<in> set xs" by simp
      then obtain pre post where pp: "xs = pre @ a # post" "a \<notin> set pre"
        by (meson split_list_first)
      have "b \<notin> set pre" using bx False pp(1) by auto
      with pp have "xs @ [x] = pre @ a # (post @ [x]) \<and> a \<notin> set pre \<and> b \<notin> set pre" by simp
      then show ?thesis by blast
    qed
  qed
qed

subsection \<open>The ranking loop\<close>

lemma problem_entry_Inr:
  assumes "problem_entry df i k c = Inr e"
  shows "df \<noteq> []" and "rank e = i" and "category e = k" and "count e = c"
    and "percentage e = (of_nat c / of_nat (length df)) * 100"
    and "avg_sentiment e =
           mean (map sentiment_compound (filter (\<lambda>r. k \<in> set (post_categories r)) df))"
    and "sample_complaints e =
           map full_text (nsmallest 3 sentiment_compound
             (filter (\<lambda>r. sentiment r = negative) (filter (\<lambda>r. k \<in> set (post_categories r)) df)))"
    and "platforms e = value_counts (map platform (filter (\<lambda>r. k \<in> set (post_categories r)) df))"
  using assms by (auto simp: problem_entry_def Let_def split: if_splits)

lemma problem_entry_total: "df \<noteq> [] \<Longrightarrow> \<exists>e. problem_entry df i k c = Inr e"
  by (simp add: problem_entry_def Let_def)

lemma loop_Inr:
  "top_problems_loop df i kcs = Inr res \<Longrightarrow>
     length res = length kcs \<and>
     (\<forall>j < length kcs. problem_entry df (i + j) (fst (kcs ! j)) (snd (kcs ! j)) = Inr (res ! j))"
proof (induction df i kcs arbitrary: res rule: top_problems_loop.induct)
  case (1 df i)
  then show ?case by simp
next
  case (2 df i cat cnt rest)
  from "2.prems" obtain e res' where
    e: "problem_entry df i cat cnt = Inr e" and
    r: "top_problems_loop df (i + 1) rest = Inr res'" and
    res: "res = e # res'"
    by (auto split: sum.splits)
  from "2.IH" [OF e r] have
    len: "length res' = length rest" and
    nth: "\<And>j. j < length rest \<Longrightarrow>
            problem_entry df (i + 1 + j) (fst (rest ! j)) (snd (rest ! j)) = Inr (res' ! j)"
    by auto
  have "problem_entry df (i + j) (fst (((cat, cnt) # rest) ! j)) (snd (((cat, cnt) # rest) ! j))
          = Inr (res ! j)" if "j < length ((cat, cnt) # rest)" for j
  proof (cases j)
    case 0
    then show ?thesis using e res by simp
  next
    case (Suc j')
    then show ?thesis using nth [of j'] that res by simp
  qed
  with len res show ?case by simp
qed

lemma loop_total:
  "df \<noteq> [] \<or> kcs = [] \<Longrightarrow> \<exists>res. top_problems_loop df i kcs = Inr res"
proof (induction kcs arbitrary: i)
  case Nil
  show ?case by simp
next
  case (Cons kc kcs)
  then have df: "df \<noteq> []" by simp
  obtain k c where kc: "kc = (k, c)" by (cases kc)
  from problem_entry_total [OF df] obtain e where "problem_entry df i k c = Inr e" by blast
  moreover from Cons.IH [of "i + 1"] df obtain res where "top_problems_loop df (i + 1) kcs = Inr res"
    by blast
  ultimately show ?case using kc by simp
qed

lemma categorize_rows:
  "map post_categories (fst (categorize_problems self df)) = map (\<lambda>r. find_categories self (full_text r)) df"
  "map sentiment_compound (fst (categorize_problems self df)) = map sentiment_compound df"
  "length (fst (categorize_problems self df)) = length df"
  by (simp_all add: categorize_problems_def Let_def comp_def)

lemma categorize_counts:
  "snd (categorize_problems self df) = Counter (concat (map (\<lambda>r. find_categories self (full_text r)) df))"
  by (simp add: categorize_problems_def Let_def comp_def)

lemma categorize_filter:
  "map sentiment_compound (filter (\<lambda>r. k \<in> set (post_categories r)) (fst (categorize_problems self df)))
     = map sentiment_compound (filter (\<lambda>r. k \<in> set (find_categories self (full_text r))) df)"
  "map platform (filter (\<lambda>r. k \<in> set (post_categories r)) (fst (categorize_problems self df)))
     = map platform (filter (\<lambda>r. k \<in> set (find_categories self (full_text r))) df)"
  by (simp_all add: categorize_problems_def Let_def filter_map comp_def)

lemma most_common_Counter_Nil: "most_common (Counter []) n = []"
  by (simp add: most_common_def Counter_def)

lemma rank_problems_eq:
  "rank_problems self df top_n =
     top_problems_loop (fst (categorize_problems self df)) 1
       (most_common (Counter (concat (map (\<lambda>r. find_categories self (full_text r)) df))) top_n)"
  by (simp add: rank_problems_def extract_top_problems_def categorize_counts [symmetric]
      split: prod.splits)

lemma rank_problems_total: "\<exists>res. rank_problems self df top_n = Inr res"
proof (cases df)
  case Nil
  then show ?thesis
    by (simp add: rank_problems_eq most_common_Counter_Nil)
next
  case (Cons r rs)
  then have "fst (categorize_problems self df) \<noteq> []"
    using categorize_rows(3) [of self df] by (metis length_0_conv list.distinct(1))
  from loop_total [OF disjI1, OF this] show ?thesis
    by (simp add: rank_problems_eq)
qed

lemma rank_problems_Inr:
  assumes "rank_problems self df top_n = Inr res"
  defines "mc \<equiv> most_common (Counter (concat (map (\<lambda>r. find_categories self (full_text r)) df))) top_n"
  shows "length res = length mc"
    and "\<And>j. j < length res \<Longrightarrow>
          df \<noteq> [] \<and> rank (res ! j) = 1 + j \<and> category (res ! j) = fst (mc ! j) \<and>
          count (res ! j) = snd (mc ! j) \<and>
          percentage (res ! j) = (of_nat (snd (mc ! j)) / of_nat (length df)) * 100 \<and>
          avg_sentiment (res ! j) =
            mean (map sentiment_compound
                   (filter (\<lambda>r. fst (mc ! j) \<in> set (find_categories self (full_text r))) df)) \<and>
          platforms (res ! j) =
            value_counts (map platform
                   (filter (\<lambda>r. fst (mc ! j) \<in> set (find_categories self (full_text r))) df))"
proof -
  let ?df' = "fst (categorize_problems self df)"
  from assms(1) have loop: "top_problems_loop ?df' 1 mc = Inr res"
    by (simp add: rank_problems_eq mc_def)
  from loop_Inr [OF loop] have len: "length res = length mc"
    and nth: "\<And>j. j < length mc \<Longrightarrow>
        problem_entry ?df' (1 + j) (fst (mc ! j)) (snd (mc ! j)) = Inr (res ! j)"
    by auto
  show "length res = length mc" by (rule len)
  fix j assume j: "j < length res"
  with len nth have e: "problem_entry ?df' (1 + j) (fst (mc ! j)) (snd (mc ! j)) = Inr (res ! j)"
    by simp
  note f = problem_entry_Inr [OF e]
  have "df \<noteq> []" using f(1) categorize_rows(3) [of self df] by auto
  moreover have "percentage (res ! j) = (of_nat (snd (mc ! j)) / of_nat (length df)) * 100"
    using f(5) by (simp add: categorize_rows(3))
  moreover have "avg_sentiment (res ! j) =
            mean (map sentiment_compound
                   (filter (\<lambda>r. fst (mc ! j) \<in> set (find_categories self (full_text r))) df))"
    using f(6) by (simp add: categorize_filter)
  moreover have "platforms (res ! j) =
            value_counts (map platform
                   (filter (\<lambda>r. fst (mc ! j) \<in> set (find_categories self (full_text r))) df))"
    using f(8) by (simp add: categorize_filter)
  ultimately show "df \<noteq> [] \<and> rank (res ! j) = 1 + j \<and> category (res ! j) = fst (mc ! j) \<and>
          count (res ! j) = snd (mc ! j) \<and>
          percentage (res ! j) = (of_nat (snd (mc ! j)) / of_nat (length df)) * 100 \<and>
          avg_sentiment (res ! j) =
            mean (map sentiment_compound
                   (filter (\<lambda>r. fst (mc ! j) \<in> set (find_categories self (full_text r))) df)) \<and>
          platforms (res ! j) =
            value_counts (map platform
                   (filter (\<lambda>r. fst (mc ! j) \<in> set (find_categories self (full_text r))) df))"
    using f(2,3,4) by simp
qed

lemma count_list_distinct: "distinct xs \<Longrightarrow> count_list xs k = (if k \<in> set xs then 1 else 0)"
  by (induction xs) auto

lemma count_list_concat_distinct:
  "(\<And>r. r \<in> set rs \<Longrightarrow> distinct (g r)) \<Longrightarrow>
     count_list (concat (map g rs)) k = length (filter (\<lambda>r. k \<in> set (g r)) rs)"
  by (induction rs) (simp_all add: count_list_distinct)

lemma distinct_find_categories:
  "distinct (map fst (problem_categories self)) \<Longrightarrow> distinct (find_categories self t)"
  by (cases t) (simp_all add: find_categories_def Let_def distinct_map_filter)

lemma set_most_common: "set (most_common counts n) \<subseteq> set counts"
  unfolding most_common_def using set_take_subset [of "nat n" "sort_key (\<lambda>kc. - int (snd kc)) counts"]
  by simp

lemma length_most_common: "length (most_common counts n) = min (nat n) (length counts)"
  by (simp add: most_common_def min.commute)

lemma length_Counter: "length (Counter xs) = card (set xs)"
proof -
  have "length (Counter xs) = length (map fst (Counter xs))" by simp
  also have "\<dots> = card (set (map fst (Counter xs)))"
    by (rule distinct_card [symmetric]) (rule distinct_keys_Counter)
  also have "set (map fst (Counter xs)) = set xs"
    using set_keys_Counter [of xs] by simp
  finally show ?thesis .
qed

lemma rank_problems_entry:
  assumes "rank_problems self df top_n = Inr res" and "e \<in> set res"
  shows "\<exists>j < length res. res ! j = e \<and>
      (category e, count e) =
        most_common (Counter (concat (map (\<lambda>r. find_categories self (full_text r)) df))) top_n ! j"
proof -
  from assms(2) obtain j where j: "j < length res" "res ! j = e"
    by (auto simp: in_set_conv_nth)
  from rank_problems_Inr(2) [OF assms(1) j(1)] j show ?thesis
    by auto
qed

lemma rank_problems_counted:
  assumes "rank_problems self df top_n = Inr res" and "e \<in> set res"
  shows "category e \<in> set (concat (map (\<lambda>r. find_categories self (full_text r)) df))"
    and "count e = count_list (concat (map (\<lambda>r. find_categories self (full_text r)) df)) (category e)"
proof -
  let ?all = "concat (map (\<lambda>r. find_categories self (full_text r)) df)"
  from rank_problems_entry [OF assms] obtain j where j: "j < length res" "res ! j = e"
    "(category e, count e) = most_common (Counter ?all) top_n ! j" by blast
  from rank_problems_Inr(1) [OF assms(1)] j(1) have "j < length (most_common (Counter ?all) top_n)"
    by simp
  then have "most_common (Counter ?all) top_n ! j \<in> set (most_common (Counter ?all) top_n)"
    by (rule nth_mem)
  with j(3) set_most_common have "(category e, count e) \<in> set (Counter ?all)"
    by fastforce
  then show "category e \<in> set ?all" and "count e = count_list ?all (category e)"
    by (simp_all add: Counter_mem)
qed

lemma rank_problems_stats:
  assumes "rank_problems self df top_n = Inr res" and "e \<in> set res"
  shows "df \<noteq> []"
    and "percentage e = (of_nat (count e) / of_nat (length df)) * 100"
    and "avg_sentiment e = mean (map sentiment_compound
            (filter (\<lambda>r. category e \<in> set (find_categories self (full_text r))) df))"
    and "platforms e = value_counts (map platform
            (filter (\<lambda>r. category e \<in> set (find_categories self (full_text r))) df))"
    and "filter (\<lambda>r. category e \<in> set (find_categories self (full_text r))) df \<noteq> []"
proof -
  from assms(2) obtain j where j: "j < length res" "res ! j = e"
    by (auto simp: in_set_conv_nth)
  note f = rank_problems_Inr(2) [OF assms(1) j(1), unfolded j(2)]
  from f show "df \<noteq> []" by simp
  from f have c: "category e = fst (most_common (Counter (concat (map (\<lambda>r. find_categories self (full_text r)) df))) top_n ! j)"
    and n: "count e = snd (most_common (Counter (concat (map (\<lambda>r. find_categories self (full_text r)) df))) top_n ! j)"
    by simp_all
  from f show "percentage e = (of_nat (count e) / of_nat (length df)) * 100"
    unfolding n by simp
  from f show "avg_sentiment e = mean (map sentiment_compound
            (filter (\<lambda>r. category e \<in> set (find_categories self (full_text r))) df))"
    unfolding c by simp
  from f show "platforms e = value_counts (map platform
            (filter (\<lambda>r. category e \<in> set (find_categories self (full_text r))) df))"
    unfolding c by simp
  from rank_problems_counted(1) [OF assms]
  obtain r where "r \<in> set df" "category e \<in> set (find_categories self (full_text r))"
    by auto
  then show "filter (\<lambda>r. category e \<in> set (find_categories self (full_text r))) df \<noteq> []"
    by (auto simp: filter_empty_conv)
qed


subsection \<open>The example, evaluated\<close>

lemma find_categories_example1: "find_categories init (Some ''fee problem'') = [''fees'']"
  by (simp add: find_categories_def init_def eval_lower)

lemma find_categories_example2: "find_categories init (Some ''deposit problem'') = [''deposit'']"
  by (simp add: find_categories_def init_def eval_lower)

lemma find_categories_example3: "find_categories init (Some ''cant withdraw, high fee'') = [''withdrawal'', ''fees'']"
  by (simp add: find_categories_def init_def eval_lower)

lemma categorize_example:
  "categorize_problems init example_df =
     ([categorized_post ''fee problem'' ''twitter'' (- (1 / 2)) [''fees''],
       categorized_post ''deposit problem'' ''reddit'' (- (1 / 4)) [''deposit''],
       categorized_post ''cant withdraw, high fee'' ''reddit'' (- (3 / 4)) [''withdrawal'', ''fees'']],
      [(''fees'', 2), (''deposit'', 1), (''withdrawal'', 1)])"
  by (simp add: categorize_problems_def example_df_def scored_post_def categorized_post_def find_categories_example1 find_categories_example2 find_categories_example3 Counter_def)

lemma rank_example:
  "rank_problems init example_df 5 =
     Inr [\<lparr>rank = 1, category = ''fees'', count = 2, percentage = 200 / 3,
           avg_sentiment = Some (- (5 / 8)),
           sample_complaints = [Some ''cant withdraw, high fee'', Some ''fee problem''],
           platforms = [(''twitter'', 1), (''reddit'', 1)]\<rparr>,
          \<lparr>rank = 2, category = ''deposit'', count = 1, percentage = 100 / 3,
           avg_sentiment = Some (- (1 / 4)),
           sample_complaints = [Some ''deposit problem''],
           platforms = [(''reddit'', 1)]\<rparr>,
          \<lparr>rank = 3, category = ''withdrawal'', count = 1, percentage = 100 / 3,
           avg_sentiment = Some (- (3 / 4)),
           sample_complaints = [Some ''cant withdraw, high fee''],
           platforms = [(''reddit'', 1)]\<rparr>]"
  by (simp add: rank_problems_def categorize_example extract_top_problems_def most_common_def
      problem_entry_def categorized_post_def classify_sentiment_def mean_def nsmallest_def
      value_counts_def Counter_def)

subsection \<open>The ranked list\<close>

text \<open>
  C9. The ranking never raises. Its entries are, in order, the first \<open>top_n\<close> categories
  of the counter sorted by descending count, each with its count; the ranks are
  \<open>1, 2, \<dots>\<close> in that order; and the number of entries is the smaller of \<open>top_n\<close> and
  the number of distinct categories that occur, so nothing is padded.
\<close>

theorem top_n_ranking:
  "\<exists>res. rank_problems self df top_n = Inr res
     \<and> map (\<lambda>e. (category e, count e)) res =
         take (nat top_n) (sort_key (\<lambda>kc. - int (snd kc))
           (Counter (concat (map (\<lambda>r. find_categories self (full_text r)) df))))
     \<and> map rank res = [1 ..< Suc (length res)]
     \<and> length res = min (nat top_n) (card (set (concat (map (\<lambda>r. find_categories self (full_text r)) df))))"
proof -
  let ?all = "concat (map (\<lambda>r. find_categories self (full_text r)) df)"
  from rank_problems_total obtain res where res: "rank_problems self df top_n = Inr res" by blast
  note len = rank_problems_Inr(1) [OF res]
  note nth = rank_problems_Inr(2) [OF res]
  have a: "map (\<lambda>e. (category e, count e)) res = most_common (Counter ?all) top_n"
    by (rule nth_equalityI) (simp_all add: len nth)
  have b: "map rank res = [1 ..< Suc (length res)]"
    by (rule nth_equalityI) (simp_all add: nth del: upt_Suc)
  have c: "length res = min (nat top_n) (card (set ?all))"
    by (simp add: len length_most_common length_Counter)
  from res a b c show ?thesis
    unfolding most_common_def by blast
qed


theorem top_n_ranking_witness:
  "\<exists>res. rank_problems init example_df 5 = Inr res
     \<and> map (\<lambda>e. (category e, count e)) res = [(''fees'', 2), (''deposit'', 1), (''withdrawal'', 1)]
     \<and> map rank res = [1, 2, 3]
     \<and> length res = 3
     \<and> length res = min (nat 5)
          (card (set (concat (map (\<lambda>r. find_categories init (full_text r)) example_df))))"
proof -
  from top_n_ranking [of init example_df 5] obtain res where
    r: "rank_problems init example_df 5 = Inr res"
    and l: "length res = min (nat 5)
          (card (set (concat (map (\<lambda>r. find_categories init (full_text r)) example_df))))"
    by blast
  from r have res: "res = projr (rank_problems init example_df 5)" by simp
  have a: "map (\<lambda>e. (category e, count e)) res = [(''fees'', 2), (''deposit'', 1), (''withdrawal'', 1)]"
    unfolding res by (simp add: rank_example)
  have b: "map rank res = [1, 2, 3]"
    unfolding res by (simp add: rank_example)
  have c: "length res = 3"
    unfolding res by (simp add: rank_example)
  show ?thesis
  proof (intro exI conjI)
    show "rank_problems init example_df 5 = Inr res" by (rule r)
    show "map (\<lambda>e. (category e, count e)) res = [(''fees'', 2), (''deposit'', 1), (''withdrawal'', 1)]"
      by (rule a)
    show "map rank res = [1, 2, 3]" by (rule b)
    show "length res = 3" by (rule c)
    show "length res = min (nat 5)
          (card (set (concat (map (\<lambda>r. find_categories init (full_text r)) example_df))))"
      by (rule l)
  qed
qed

lemma find_categories_example5:
  "find_categories init (Some ''high fee, help'') = [''fees'', ''customer_support'']"
  by (simp add: find_categories_def init_def eval_lower)

lemma rank_missing_platform_example:
  "rank_problems init example_missing_platform_df 5 =
     Inr [\<lparr>rank = 1, category = ''fees'', count = 2, percentage = 100,
           avg_sentiment = Some (- (3 / 8)),
           sample_complaints = [Some ''fee problem'', Some ''high fee, help''],
           platforms = [(''twitter'', 1)]\<rparr>,
          \<lparr>rank = 2, category = ''customer_support'', count = 1, percentage = 50,
           avg_sentiment = Some (- (1 / 4)),
           sample_complaints = [Some ''high fee, help''],
           platforms = []\<rparr>]"
  by (simp add: rank_problems_def categorize_problems_def example_missing_platform_df_def
      scored_post_def find_categories_example1 find_categories_example5
      extract_top_problems_def most_common_def
      problem_entry_def classify_sentiment_def mean_def nsmallest_def
      value_counts_def Counter_def)

text \<open>
  C10, as stated, fails on a frame in which a problem post has no platform:
  \<^verbatim>\<open>value_counts\<close> leaves that post out of the breakdown. Of two posts about fees, the
  second without a platform, the count of \<open>fees\<close> is 2 and the values of its platform
  breakdown sum to 1.
\<close>

theorem platform_sum_counterexample:
  "count (hd (projr (rank_problems init example_missing_platform_df 5))) = 2
   \<and> platforms (hd (projr (rank_problems init example_missing_platform_df 5))) = [(''twitter'', 1)]
   \<and> sum_list (map snd (platforms (hd (projr (rank_problems init example_missing_platform_df 5))))) = 1"
  by (simp add: rank_missing_platform_example)

text \<open>
  C10, amended. With a taxonomy whose keys are distinct (as the keys of a dict are), every
  ranked entry has a count of at least 1; the count is the number of problem posts whose
  category list contains the category; the percentage lies in \<open>(0, 100]\<close>; and the
  values of the platform breakdown sum to the number of those posts that have a platform,
  which is at most the count and is the count when each of those posts has a platform.
\<close>

theorem count_invariants:
  assumes "distinct (map fst (problem_categories self))"
    and "rank_problems self df top_n = Inr res" and "e \<in> set res"
  shows "1 \<le> count e
     \<and> count e = length (filter (\<lambda>r. category e \<in> set (find_categories self (full_text r))) df)
     \<and> 0 < percentage e \<and> percentage e \<le> 100
     \<and> sum_list (map snd (platforms e)) =
           length (filter (\<lambda>r. category e \<in> set (find_categories self (full_text r))
                                \<and> platform r \<noteq> None) df)
     \<and> sum_list (map snd (platforms e)) \<le> count e
     \<and> ((\<forall>r \<in> set df. category e \<in> set (find_categories self (full_text r))
                         \<longrightarrow> platform r \<noteq> None)
          \<longrightarrow> sum_list (map snd (platforms e)) = count e)"
proof -
  let ?carries = "\<lambda>r. category e \<in> set (find_categories self (full_text r))"
  let ?posts = "filter ?carries df"
  have cnt: "count e = length ?posts"
    unfolding rank_problems_counted(2) [OF assms(2,3)]
    by (rule count_list_concat_distinct) (rule distinct_find_categories [OF assms(1)])
  note s = rank_problems_stats [OF assms(2,3)]
  from s(5) cnt have pos: "1 \<le> count e"
    by (simp add: Suc_le_eq)
  have le: "count e \<le> length df"
    unfolding cnt by simp
  have dfpos: "0 < length df" using s(1) by simp
  have p1: "0 < percentage e"
    unfolding s(2) using pos dfpos by simp
  have "(of_nat (count e) :: rat) \<le> of_nat (length df)"
    using le by simp
  then have "(of_nat (count e) :: rat) / of_nat (length df) \<le> 1"
    using dfpos by (simp add: divide_le_eq_1)
  then have "(of_nat (count e) / of_nat (length df)) * (100 :: rat) \<le> 1 * 100"
    by (intro mult_right_mono) simp_all
  then have p2: "percentage e \<le> 100"
    unfolding s(2) by simp
  have "sum_list (map snd (platforms e)) = length (filter (\<lambda>r. platform r \<noteq> None) ?posts)"
    unfolding s(4) by (simp add: sum_value_counts filter_map comp_def)
  then have pl: "sum_list (map snd (platforms e)) =
      length (filter (\<lambda>r. ?carries r \<and> platform r \<noteq> None) df)"
    by simp
  have "length (filter (\<lambda>r. platform r \<noteq> None) ?posts) \<le> length ?posts"
    by (rule length_filter_le)
  then have ple: "sum_list (map snd (platforms e)) \<le> count e"
    unfolding pl cnt by simp
  have peq: "sum_list (map snd (platforms e)) = count e"
    if "\<forall>r \<in> set df. ?carries r \<longrightarrow> platform r \<noteq> None"
  proof -
    from that have "filter (\<lambda>r. ?carries r \<and> platform r \<noteq> None) df = ?posts"
      by (intro filter_cong) auto
    then show ?thesis unfolding pl cnt by simp
  qed
  from pos cnt p1 p2 pl ple peq show ?thesis by blast
qed

theorem count_invariants_witness:
  "distinct (map fst (problem_categories init))
   \<and> (\<exists>res. rank_problems init example_df 5 = Inr res \<and> res ! 0 \<in> set res
        \<and> category (res ! 0) = ''fees'' \<and> count (res ! 0) = 2
        \<and> length (filter (\<lambda>r. ''fees'' \<in> set (find_categories init (full_text r))) example_df) = 2
        \<and> 0 < percentage (res ! 0) \<and> percentage (res ! 0) \<le> 100
        \<and> sum_list (map snd (platforms (res ! 0))) = count (res ! 0))"
proof -
  have d: "distinct (map fst (problem_categories init))"
    by (simp add: init_def)
  let ?e = "\<lparr>rank = 1, category = ''fees'', count = 2, percentage = 200 / 3,
           avg_sentiment = Some (- (5 / 8)),
           sample_complaints = [Some ''cant withdraw, high fee'', Some ''fee problem''],
           platforms = [(''twitter'', 1), (''reddit'', 1)]\<rparr>"
  have present: "\<forall>r \<in> set example_df.
      category ?e \<in> set (find_categories init (full_text r)) \<longrightarrow> platform r \<noteq> None"
    by (simp add: example_df_def scored_post_def)
  from count_invariants [OF d rank_example, of ?e] present
  have "count ?e = length (filter (\<lambda>r. category ?e \<in> set (find_categories init (full_text r))) example_df)
      \<and> sum_list (map snd (platforms ?e)) = count ?e"
    by simp
  with d show ?thesis
    by (simp add: rank_example)
qed

text \<open>
  C1, as stated, fails: among equal counts \<^verbatim>\<open>most_common\<close> keeps the order in which the
  categories entered the counter. Of two posts, the first about fees and the second about
  deposits, the ranking puts \<open>fees\<close> before \<open>deposit\<close>, although \<open>deposit\<close> is the
  alphabetically smaller name.
\<close>

theorem ranking_by_alphabet_counterexample:
  "rank_problems init (take 2 example_df) 5 =
     Inr [\<lparr>rank = 1, category = ''fees'', count = 1, percentage = 50,
           avg_sentiment = Some (- (1 / 2)),
           sample_complaints = [Some ''fee problem''],
           platforms = [(''twitter'', 1)]\<rparr>,
          \<lparr>rank = 2, category = ''deposit'', count = 1, percentage = 50,
           avg_sentiment = Some (- (1 / 4)),
           sample_complaints = [Some ''deposit problem''],
           platforms = [(''reddit'', 1)]\<rparr>]
   \<and> (''deposit'' :: string) < ''fees''"
  by (simp add: rank_problems_def categorize_problems_def example_df_def scored_post_def find_categories_example1 find_categories_example2
      extract_top_problems_def most_common_def
      problem_entry_def classify_sentiment_def mean_def nsmallest_def
      value_counts_def Counter_def)


text \<open>
  C1, amended. In the ranked output the counts are descending, and of two categories
  with equal counts the one placed first is the one mentioned first in the problem posts:
  the sequence of all category mentions (posts in row order, the categories of a post in
  taxonomy order) reaches it before any mention of the other.
\<close>

theorem ranking_order:
  assumes "rank_problems self df top_n = Inr res" and "i < j" and "j < length res"
  shows "count (res ! j) \<le> count (res ! i)
     \<and> (count (res ! i) = count (res ! j) \<longrightarrow>
          (\<exists>pre suf. concat (map (\<lambda>r. find_categories self (full_text r)) df)
                        = pre @ category (res ! i) # suf
              \<and> category (res ! i) \<notin> set pre \<and> category (res ! j) \<notin> set pre))"
proof -
  let ?all = "concat (map (\<lambda>r. find_categories self (full_text r)) df)"
  let ?K = "Counter ?all"
  let ?f = "\<lambda>kc :: string \<times> nat. - int (snd kc)"
  let ?mc = "most_common ?K top_n"
  let ?R = "\<lambda>a b. ?f a \<le> ?f b \<and> (?f a = ?f b \<longrightarrow> (\<exists>us vs. ?K = us @ a # vs \<and> b \<in> set vs))"
  have "sorted_wrt ?R (sort_key ?f ?K)"
    by (rule sort_key_stable_order)
  then have sorted: "sorted_wrt ?R ?mc"
    unfolding most_common_def by (rule sorted_wrt_take)
  have len: "length res = length ?mc"
    by (rule rank_problems_Inr(1) [OF assms(1)])
  from sorted assms(2,3) len have R: "?R (?mc ! i) (?mc ! j)"
    by (simp add: sorted_wrt_iff_nth_less)
  from assms(2,3) have i: "i < length res" by simp
  from rank_problems_Inr(2) [OF assms(1) i]
  have ei: "category (res ! i) = fst (?mc ! i)" "count (res ! i) = snd (?mc ! i)" by simp_all
  from rank_problems_Inr(2) [OF assms(1) assms(3)]
  have ej: "category (res ! j) = fst (?mc ! j)" "count (res ! j) = snd (?mc ! j)" by simp_all
  from R have le: "count (res ! j) \<le> count (res ! i)"
    by (simp add: ei ej)
  have tie: "\<exists>pre suf. ?all = pre @ category (res ! i) # suf
              \<and> category (res ! i) \<notin> set pre \<and> category (res ! j) \<notin> set pre"
    if eq: "count (res ! i) = count (res ! j)"
  proof -
    from R eq obtain us vs where K: "?K = us @ (?mc ! i) # vs" and b: "?mc ! j \<in> set vs"
      by (auto simp: ei ej)
    have "map fst ?K = map fst us @ fst (?mc ! i) # map fst vs"
      by (subst K) simp
    then have keys: "rev (remdups (rev ?all)) = map fst us @ category (res ! i) # map fst vs"
      by (simp add: keys_Counter ei)
    from b have "category (res ! j) \<in> set (map fst vs)"
      by (simp add: ej)
    from first_occurrence_order [OF keys this] show ?thesis .
  qed
  from le tie show ?thesis by blast
qed


theorem ranking_order_witness:
  "(\<exists>res. rank_problems init example_df 5 = Inr res \<and> (1 :: nat) < 2 \<and> 2 < length res
      \<and> category (res ! 1) = ''deposit'' \<and> category (res ! 2) = ''withdrawal''
      \<and> count (res ! 2) \<le> count (res ! 1) \<and> count (res ! 1) = count (res ! 2))
   \<and> (\<exists>pre suf. concat (map (\<lambda>r. find_categories init (full_text r)) example_df)
                    = pre @ ''deposit'' # suf
          \<and> ''deposit'' \<notin> set pre \<and> ''withdrawal'' \<notin> set pre)"
  using ranking_order [OF rank_example, of 1 2] rank_example by simp

subsection \<open>Categorization\<close>

lemma find_categories_mem:
  "c \<in> set (find_categories self (Some t)) \<longleftrightarrow>
     (\<exists>kws. (c, kws) \<in> set (problem_categories self) \<and> (\<exists>k \<in> set kws. sublist k (lower t)))"
  by (force simp: find_categories_def Let_def list_ex_iff str_in_sublist)

lemma category_counts_mem:
  assumes "distinct (map fst (problem_categories self))"
  shows "(c, n) \<in> set (snd (categorize_problems self df)) \<longleftrightarrow>
           n = length (filter (\<lambda>r. c \<in> set (find_categories self (full_text r))) df) \<and> 0 < n"
proof -
  let ?all = "concat (map (\<lambda>r. find_categories self (full_text r)) df)"
  have cnt: "count_list ?all c = length (filter (\<lambda>r. c \<in> set (find_categories self (full_text r))) df)"
    by (rule count_list_concat_distinct) (rule distinct_find_categories [OF assms])
  have "c \<in> set ?all \<longleftrightarrow> 0 < count_list ?all c"
    using count_list_0_iff [of ?all c] by auto
  then show ?thesis
    unfolding categorize_counts Counter_mem cnt [symmetric] by auto
qed

text \<open>
  C6. For a taxonomy with distinct keys and lower-case keywords (both hold for the
  taxonomy of the analyzer), \<^verbatim>\<open>find_categories\<close> returns a category exactly when one of
  its keywords, compared without regard to case, is a contiguous substring of the text;
  a missing text has no category; no category is returned twice for one text; and a
  category has the count \<open>n\<close> in the counter exactly when \<open>n > 0\<close> posts have it, so a
  text that matches two categories credits each of them once.
\<close>

theorem find_categories_iff:
  assumes "distinct (map fst (problem_categories self))"
    and "list_all (\<lambda>(c, kws). list_all (\<lambda>k. lower k = k) kws) (problem_categories self)"
  shows "(c \<in> set (find_categories self (Some t)) \<longleftrightarrow>
            (\<exists>kws. (c, kws) \<in> set (problem_categories self)
                 \<and> (\<exists>k \<in> set kws. sublist (lower k) (lower t))))
     \<and> find_categories self None = []
     \<and> distinct (find_categories self (Some t))
     \<and> ((c, n) \<in> set (snd (categorize_problems self df)) \<longleftrightarrow>
           n = length (filter (\<lambda>r. c \<in> set (find_categories self (full_text r))) df) \<and> 0 < n)"
proof -
  have low: "lower k = k" if "(c', kws) \<in> set (problem_categories self)" "k \<in> set kws" for c' kws k
    using assms(2) that by (auto simp: list_all_iff)
  have "c \<in> set (find_categories self (Some t)) \<longleftrightarrow>
            (\<exists>kws. (c, kws) \<in> set (problem_categories self)
                 \<and> (\<exists>k \<in> set kws. sublist (lower k) (lower t)))"
    unfolding find_categories_mem using low by (metis (no_types, lifting))
  moreover have "find_categories self None = []"
    by (simp add: find_categories_def)
  moreover note distinct_find_categories [OF assms(1), of "Some t"]
    category_counts_mem [OF assms(1), of c n df]
  ultimately show ?thesis by blast
qed

lemma init_keys_distinct: "distinct (map fst (problem_categories init))"
  by (simp add: init_def)

lemma init_keywords_lower:
  "list_all (\<lambda>(c, kws). list_all (\<lambda>k. lower k = k) kws) (problem_categories init)"
  by (simp add: init_def eval_lower)

lemma find_categories_example4:
  "find_categories init (Some ''Paid a high FEE'') = [''fees'', ''kyc_verification'']"
  by (simp add: find_categories_def init_def eval_lower)

theorem find_categories_iff_witness:
  "find_categories init (Some ''Paid a high FEE'') = [''fees'', ''kyc_verification'']
   \<and> (\<exists>kws. (''kyc_verification'', kws) \<in> set (problem_categories init)
          \<and> (\<exists>k \<in> set kws. sublist (lower k) (lower ''Paid a high FEE'')))
   \<and> (''kyc_verification'', 1) \<in> set (snd (categorize_problems init [scored_post ''Paid a high FEE'' ''reddit'' 0]))
   \<and> (''fees'', 1) \<in> set (snd (categorize_problems init [scored_post ''Paid a high FEE'' ''reddit'' 0]))"
  using find_categories_iff [OF init_keys_distinct init_keywords_lower,
      of "''kyc_verification''" "''Paid a high FEE''" 1 "[scored_post ''Paid a high FEE'' ''reddit'' 0]"]
    find_categories_iff [OF init_keys_distinct init_keywords_lower,
      of "''fees''" "''Paid a high FEE''" 1 "[scored_post ''Paid a high FEE'' ''reddit'' 0]"]
  by (simp add: find_categories_example4 scored_post_def)

subsection \<open>Sample complaints\<close>

lemma count_list_insort_key: "count_list (insort_key f x xs) y = count_list (x # xs) y"
  by (induction xs) auto

lemma count_list_sort_key: "count_list (sort_key f xs) y = count_list xs y"
  by (induction xs) (simp_all add: count_list_insort_key)

lemma extract_top_problems_entry:
  assumes "extract_top_problems problem_df category_counts top_n = Inr res" and "e \<in> set res"
  shows "\<exists>i c. problem_entry problem_df i (category e) c = Inr e"
proof -
  from assms(2) obtain j where j: "j < length res" "res ! j = e"
    by (auto simp: in_set_conv_nth)
  from assms(1) have "top_problems_loop problem_df 1 (most_common category_counts top_n) = Inr res"
    by (simp add: extract_top_problems_def)
  from loop_Inr [OF this] j
  have e: "problem_entry problem_df (1 + j) (fst (most_common category_counts top_n ! j))
          (snd (most_common category_counts top_n ! j)) = Inr e"
    by auto
  from problem_entry_Inr(3) [OF e] e show ?thesis
    by auto
qed

text \<open>
  C5. For every entry of the ranking, the sample complaints are the texts of a list
  \<open>sel\<close> of posts such that \<open>sel\<close> has 3 elements, or all qualifying posts if there are
  fewer; \<open>sel\<close> followed by some \<open>rest\<close> is a rearrangement of exactly the posts that
  carry the category and have the label negative; and \<open>sel\<close> followed by \<open>rest\<close> is in
  ascending order of the compound score. So the samples are the (up to) three most
  negative qualifying posts, most negative first.
\<close>

theorem sample_complaints_spec:
  assumes "extract_top_problems problem_df category_counts top_n = Inr res" and "e \<in> set res"
  shows "\<exists>sel rest.
           sample_complaints e = map full_text sel
         \<and> length sel =
             min 3 (length (filter (\<lambda>r. category e \<in> set (post_categories r) \<and> sentiment r = negative)
                              problem_df))
         \<and> sorted (map sentiment_compound (sel @ rest))
         \<and> (\<forall>r. count_list (sel @ rest) r =
                  count_list (filter (\<lambda>r. category e \<in> set (post_categories r) \<and> sentiment r = negative)
                                problem_df) r)"
proof -
  let ?Q = "filter (\<lambda>r. category e \<in> set (post_categories r) \<and> sentiment r = negative) problem_df"
  let ?sel = "take 3 (sort_key sentiment_compound ?Q)"
  let ?rest = "drop 3 (sort_key sentiment_compound ?Q)"
  from extract_top_problems_entry [OF assms] obtain i c
    where e: "problem_entry problem_df i (category e) c = Inr e" by blast
  have "sample_complaints e = map full_text ?sel"
    using problem_entry_Inr(7) [OF e] by (simp add: nsmallest_def)
  moreover have "length ?sel = min 3 (length ?Q)"
    by (simp add: min.commute)
  moreover have "sorted (map sentiment_compound (?sel @ ?rest))"
    by (simp add: sorted_sort_key)
  moreover have "\<forall>r. count_list (?sel @ ?rest) r = count_list ?Q r"
    by (simp only: append_take_drop_id count_list_sort_key) simp
  ultimately show ?thesis by blast
qed

lemma extract_negative_example:
  "extract_top_problems example_negative_df [(''fees'', 5)] 5 =
     Inr [\<lparr>rank = 1, category = ''fees'', count = 5, percentage = 100,
           avg_sentiment = Some (- (37 / 100)),
           sample_complaints = [Some ''a'', Some ''c'', Some ''d''],
           platforms = [(''reddit'', 5)]\<rparr>]"
  by (simp add: extract_top_problems_def most_common_def problem_entry_def example_negative_df_def
      categorized_post_def classify_sentiment_def mean_def nsmallest_def value_counts_def Counter_def)

theorem sample_complaints_spec_witness:
  "(\<exists>res. extract_top_problems example_negative_df [(''fees'', 5)] 5 = Inr res
       \<and> res ! 0 \<in> set res
       \<and> sample_complaints (res ! 0) = [Some ''a'', Some ''c'', Some ''d'']
       \<and> (\<exists>sel rest.
             sample_complaints (res ! 0) = map full_text sel
           \<and> length sel = 3
           \<and> sorted (map sentiment_compound (sel @ rest))
           \<and> (\<forall>r. count_list (sel @ rest) r = count_list example_negative_df r)))"
proof -
  let ?e = "\<lparr>rank = 1, category = ''fees'', count = 5, percentage = 100,
           avg_sentiment = Some (- (37 / 100)),
           sample_complaints = [Some ''a'', Some ''c'', Some ''d''],
           platforms = [(''reddit'', 5)]\<rparr>"
  have Q: "filter (\<lambda>r. ''fees'' \<in> set (post_categories r) \<and> sentiment r = negative) example_negative_df
        = example_negative_df"
    by (simp add: example_negative_df_def categorized_post_def classify_sentiment_def)
  have len: "length example_negative_df = 5"
    by (simp add: example_negative_df_def)
  from sample_complaints_spec [OF extract_negative_example, of ?e]
  have "\<exists>sel rest.
             [Some ''a'', Some ''c'', Some ''d''] = map full_text sel
           \<and> length sel = 3
           \<and> sorted (map sentiment_compound (sel @ rest))
           \<and> (\<forall>r. count_list (sel @ rest) r = count_list example_negative_df r)"
    by (simp add: Q len)
  then show ?thesis
    by (simp add: extract_negative_example)
qed

subsection \<open>Percentage and average sentiment\<close>

lemma analyze_sentiment_Inr:
  "analyze_sentiment vader ps = Inr ss \<Longrightarrow> length ss = length ps \<and> map full_text ss = map full_text ps"
proof (induction ps arbitrary: ss)
  case Nil
  then show ?case by simp
next
  case (Cons p ps)
  then show ?case
    by (auto split: sum.splits)
qed

lemma run_full_analysis_Some:
  assumes "run_full_analysis self vader (Some rows) = Inr (Some res)"
  shows "\<exists>scored_df.
           analyze_sentiment vader (filter (\<lambda>r. contains_problem self (full_text r)) rows) = Inr scored_df
         \<and> rank_problems self scored_df 5 = Inr res"
  using assms
  by (auto simp: run_full_analysis_def identify_problem_posts_def Let_def split: if_splits sum.splits)

text \<open>
  C8. When the pipeline returns a ranking, the scored frame is the frame of the problem
  posts (it is not empty), and for every entry the percentage is the count divided by
  the number of problem posts, times 100, and the average sentiment is the sum of the
  compound scores of the problem posts that carry the category, divided by their number,
  which is not zero.
\<close>

theorem percentage_and_avg_sentiment:
  assumes "run_full_analysis self vader (Some rows) = Inr (Some res)" and "e \<in> set res"
  shows "\<exists>scored_df.
           analyze_sentiment vader (filter (\<lambda>r. contains_problem self (full_text r)) rows) = Inr scored_df
         \<and> length scored_df = length (filter (\<lambda>r. contains_problem self (full_text r)) rows)
         \<and> scored_df \<noteq> []
         \<and> percentage e = (of_nat (count e) / of_nat (length scored_df)) * 100
         \<and> (let cs = map sentiment_compound
                        (filter (\<lambda>r. category e \<in> set (find_categories self (full_text r))) scored_df)
            in cs \<noteq> [] \<and> avg_sentiment e = Some (sum_list cs / of_nat (length cs)))"
proof -
  from run_full_analysis_Some [OF assms(1)] obtain scored_df where
    a: "analyze_sentiment vader (filter (\<lambda>r. contains_problem self (full_text r)) rows) = Inr scored_df"
    and r: "rank_problems self scored_df 5 = Inr res" by blast
  note s = rank_problems_stats [OF r assms(2)]
  have len: "length scored_df = length (filter (\<lambda>r. contains_problem self (full_text r)) rows)"
    using analyze_sentiment_Inr [OF a] by simp
  let ?cs = "map sentiment_compound
               (filter (\<lambda>r. category e \<in> set (find_categories self (full_text r))) scored_df)"
  have ne: "?cs \<noteq> []" using s(5) by simp
  then have "avg_sentiment e = Some (sum_list ?cs / of_nat (length ?cs))"
    unfolding s(3) mean_def by simp
  with ne have "let cs = ?cs in cs \<noteq> [] \<and> avg_sentiment e = Some (sum_list cs / of_nat (length cs))"
    by (simp add: Let_def)
  with a len s(1,2) show ?thesis by blast
qed

lemma contains_problem_examples:
  "contains_problem init (Some ''fee problem'')"
  "\<not> contains_problem init (Some ''all good'')"
  "contains_problem init (Some ''deposit problem'')"
  "\<not> contains_problem init None"
  by (simp_all add: contains_problem_def init_def eval_lower)

lemma analyze_example:
  "analyze_sentiment (constant_scorer (- (1 / 2)))
     (filter (\<lambda>r. contains_problem init (full_text r)) example_posts)
   = Inr [scored_post ''fee problem'' ''twitter'' (- (1 / 2)),
          scored_post ''deposit problem'' ''reddit'' (- (1 / 2))]"
  by (simp add: example_posts_def contains_problem_examples get_vader_sentiment_def
      constant_scorer_def scored_post_def)

lemma run_example:
  "run_full_analysis init (constant_scorer (- (1 / 2))) (Some example_posts) =
     Inr (Some [\<lparr>rank = 1, category = ''fees'', count = 1, percentage = 50,
                  avg_sentiment = Some (- (1 / 2)),
                  sample_complaints = [Some ''fee problem''],
                  platforms = [(''twitter'', 1)]\<rparr>,
                 \<lparr>rank = 2, category = ''deposit'', count = 1, percentage = 50,
                  avg_sentiment = Some (- (1 / 2)),
                  sample_complaints = [Some ''deposit problem''],
                  platforms = [(''reddit'', 1)]\<rparr>])"
proof -
  have "identify_problem_posts init (Some example_posts) =
          Inr (filter (\<lambda>r. contains_problem init (full_text r)) example_posts)"
    by (simp add: identify_problem_posts_def example_posts_def)
  moreover have "length (filter (\<lambda>r. contains_problem init (full_text r)) example_posts) \<noteq> 0"
    by (simp add: example_posts_def contains_problem_examples)
  moreover have "rank_problems init [scored_post ''fee problem'' ''twitter'' (- (1 / 2)),
          scored_post ''deposit problem'' ''reddit'' (- (1 / 2))] 5 =
     Inr [\<lparr>rank = 1, category = ''fees'', count = 1, percentage = 50,
                  avg_sentiment = Some (- (1 / 2)),
                  sample_complaints = [Some ''fee problem''],
                  platforms = [(''twitter'', 1)]\<rparr>,
                 \<lparr>rank = 2, category = ''deposit'', count = 1, percentage = 50,
                  avg_sentiment = Some (- (1 / 2)),
                  sample_complaints = [Some ''deposit problem''],
                  platforms = [(''reddit'', 1)]\<rparr>]"
    by (simp add: rank_problems_def categorize_problems_def scored_post_def
        find_categories_example1 find_categories_example2
        extract_top_problems_def most_common_def
        problem_entry_def classify_sentiment_def mean_def nsmallest_def
        value_counts_def Counter_def)
  ultimately show ?thesis
    by (simp add: run_full_analysis_def analyze_example)
qed

theorem percentage_and_avg_sentiment_witness:
  "\<exists>res. run_full_analysis init (constant_scorer (- (1 / 2))) (Some example_posts) = Inr (Some res)
     \<and> res ! 0 \<in> set res
     \<and> length example_posts = 4
     \<and> count (res ! 0) = 1
     \<and> percentage (res ! 0) = 50
     \<and> avg_sentiment (res ! 0) = Some (- (1 / 2))
     \<and> (\<exists>scored_df.
           analyze_sentiment (constant_scorer (- (1 / 2)))
             (filter (\<lambda>r. contains_problem init (full_text r)) example_posts) = Inr scored_df
         \<and> length scored_df = 2
         \<and> percentage (res ! 0) = (of_nat (count (res ! 0)) / of_nat (length scored_df)) * 100)"
proof -
  let ?e = "\<lparr>rank = 1, category = ''fees'', count = 1, percentage = 50,
                  avg_sentiment = Some (- (1 / 2)),
                  sample_complaints = [Some ''fee problem''],
                  platforms = [(''twitter'', 1)]\<rparr>"
  let ?e' = "\<lparr>rank = 2, category = ''deposit'', count = 1, percentage = 50,
                  avg_sentiment = Some (- (1 / 2)),
                  sample_complaints = [Some ''deposit problem''],
                  platforms = [(''reddit'', 1)]\<rparr>"
  have mem: "?e \<in> set [?e, ?e']" by simp
  from percentage_and_avg_sentiment [OF run_example mem] obtain scored_df where
    a: "analyze_sentiment (constant_scorer (- (1 / 2)))
          (filter (\<lambda>r. contains_problem init (full_text r)) example_posts) = Inr scored_df"
    and p: "percentage ?e = (of_nat (count ?e) / of_nat (length scored_df)) * 100"
    by blast
  from a have sd: "length scored_df = 2"
    by (auto simp: analyze_example)
  have len: "length example_posts = 4"
    by (simp add: example_posts_def)
  from a p sd len show ?thesis
    by (simp add: run_example)
qed

end
